theory Spec2Isabelle
  imports Main "HOL-Library.Word" "HOL-Library.Signed_Division" "HOL-Library.Multiset"
begin

section \<open>Statuses, monotonic time and message formatting\<close>

text \<open>
  \<^verbatim>\<open>Status\<close> (util/status.h), \<^verbatim>\<open>MonoTime\<close>/\<^verbatim>\<open>MonoDelta\<close> (util/monotime.h) and
  \<^verbatim>\<open>strings::Substitute\<close> are used by \<^verbatim>\<open>KuduTable::Data::Open\<close> but declared outside the
  two source files. They are modelled by what the callers rely on: a status is a code with a
  message, a \<^verbatim>\<open>MonoTime\<close> is a count of nanoseconds, a \<^verbatim>\<open>MonoDelta\<close> a difference of two,
  \<^verbatim>\<open>ComesBefore\<close> is the strict order, and \<^verbatim>\<open>ToMilliseconds\<close> divides by \<open>10\<^sup>6\<close> as
  \<^verbatim>\<open>int64_t\<close> division does (truncating).
\<close>

datatype StatusCode =
    kOk | kNotFound | kInvalidArgument | kIOError | kAlreadyPresent | kRuntimeError
  | kNetworkError | kIllegalState | kRemoteError | kServiceUnavailable | kTimedOut

datatype Status = Status (status_code: StatusCode) (status_message: string)

definition OK :: Status where
  "OK = Status kOk []"

definition TimedOut :: "string \<Rightarrow> Status" where
  "TimedOut m = Status kTimedOut m"

definition ok :: "Status \<Rightarrow> bool" where
  "ok s = (status_code s = kOk)"

definition IsNetworkError :: "Status \<Rightarrow> bool" where
  "IsNetworkError s = (status_code s = kNetworkError)"

definition IsTimedOut :: "Status \<Rightarrow> bool" where
  "IsTimedOut s = (status_code s = kTimedOut)"

type_synonym MonoTime = int
type_synonym MonoDelta = int

definition ComesBefore :: "MonoTime \<Rightarrow> MonoTime \<Rightarrow> bool" where
  "ComesBefore t rhs = (t < rhs)"

definition AddDelta :: "MonoTime \<Rightarrow> MonoDelta \<Rightarrow> MonoTime" where
  "AddDelta t d = t + d"

definition ToMilliseconds :: "MonoDelta \<Rightarrow> int" where
  "ToMilliseconds d = d sdiv 1000000"

text \<open>Decimal rendering of an integer, as \<^verbatim>\<open>Substitute\<close> prints an \<^verbatim>\<open>int64_t\<close> argument.\<close>

definition digit_char :: "nat \<Rightarrow> char" where
  "digit_char d = ''0123456789'' ! d"

function decimal_nat :: "nat \<Rightarrow> string" where
  "decimal_nat n =
     (if n < 10 then [digit_char n] else decimal_nat (n div 10) @ [digit_char (n mod 10)])"
  by pat_completeness auto
termination
  by (relation "measure id") auto

declare decimal_nat.simps [simp del]

definition decimal :: "int \<Rightarrow> string" where
  "decimal i = (if i < 0 then CHR ''-'' # decimal_nat (nat (- i)) else decimal_nat (nat i))"

section \<open>The master's reply and the client's state\<close>

text \<open>
  \<^verbatim>\<open>GetTableLocationsResponsePB\<close> (master.pb.h) as far as \<^verbatim>\<open>Open\<close> reads it: an optional
  error, which has a code and a status, and the repeated field of tablet locations. Of the
  error codes the loop names two; every other code is \<open>OTHER_CODE\<close>. The status of the
  error is held already converted, so \<^verbatim>\<open>StatusFromPB\<close> is the identity on it.
\<close>

datatype MasterErrorCode = NOT_THE_LEADER | CATALOG_MANAGER_NOT_INITIALIZED | OTHER_CODE nat

record MasterErrorPB =
  error_code :: MasterErrorCode
  error_status :: Status

definition StatusFromPB :: "Status \<Rightarrow> Status" where
  "StatusFromPB pb = pb"

type_synonym HostPort = string

record TabletLocationsPB =
  tablet_id :: string
  replicas :: "HostPort list"

record GetTableLocationsResponsePB =
  resp_error :: "MasterErrorPB option"
  tablet_locations :: "TabletLocationsPB list"

definition has_error :: "GetTableLocationsResponsePB \<Rightarrow> bool" where
  "has_error resp = (resp_error resp \<noteq> None)"

definition tablet_locations_size :: "GetTableLocationsResponsePB \<Rightarrow> nat" where
  "tablet_locations_size resp = length (tablet_locations resp)"

text \<open>
  \<^verbatim>\<open>client_->data_\<close>: the fields \<^verbatim>\<open>Open\<close> reads, and the leader address that
  \<^verbatim>\<open>SetMasterServerProxy\<close> installs (\<^verbatim>\<open>master_proxy_\<close> talks to it).

  Modelled from the spec: the shared tablet-location cache of one client (table name to
  tablet locations), whose declaration is not among the sources. \<^verbatim>\<open>Open\<close> never names it.
\<close>

record KuduClient_Data =
  default_select_master_timeout :: MonoDelta
  leader_master_hostport :: HostPort
  tablet_location_cache :: "string \<rightharpoonup> TabletLocationsPB list"

text \<open>
  What is outside the function is a script: the outcome of each successive
  \<^verbatim>\<open>GetTableLocations\<close> call (its status and the response object after the call, given the
  master it is sent to and the table asked for), and of each successive
  \<^verbatim>\<open>SetMasterServerProxy\<close> call (its status and the leader address the client holds
  afterwards). A call on an exhausted script has no outcome (\<open>None\<close>). The microseconds
  spent in \<^verbatim>\<open>usleep\<close> are counted. The timeout the loop sets on each call's controller
  shows only in the script, as a call whose status is TimedOut; the log lines are left out.
\<close>

record OpenState =
  client :: KuduClient_Data
  replies :: "(HostPort \<Rightarrow> string \<Rightarrow> Status \<times> GetTableLocationsResponsePB) list"
  elections :: "(Status \<times> HostPort) list"
  slept_usec :: nat

definition GetTableLocations ::
  "string \<Rightarrow> OpenState \<Rightarrow> ((Status \<times> GetTableLocationsResponsePB) \<times> OpenState) option" where
  "GetTableLocations name w =
     (case replies w of
        [] \<Rightarrow> None
      | r # rs \<Rightarrow> Some (r (leader_master_hostport (client w)) name, w\<lparr>replies := rs\<rparr>))"

definition SetMasterServerProxy :: "OpenState \<Rightarrow> (Status \<times> OpenState) option" where
  "SetMasterServerProxy w =
     (case elections w of
        [] \<Rightarrow> None
      | (s, hp) # es \<Rightarrow>
          Some (s, w\<lparr>elections := es, client := (client w)\<lparr>leader_master_hostport := hp\<rparr>\<rparr>))"

definition usleep :: "nat \<Rightarrow> OpenState \<Rightarrow> OpenState" where
  "usleep us w = w\<lparr>slept_usec := slept_usec w + us\<rparr>"

section \<open>KuduTable::Data::Open\<close>

text \<open>
  Inside one iteration the status \<open>s\<close> either reaches the next statement or the iteration
  ends in \<^verbatim>\<open>continue\<close>.
\<close>

datatype Flow = Continue | Next Status

text \<open>\<^verbatim>\<open>s = SetMasterServerProxy(...); if (s.ok()) continue;\<close>, as written at three places.\<close>

definition rediscover :: "OpenState \<Rightarrow> (Flow \<times> OpenState) option" where
  "rediscover w =
     (case SetMasterServerProxy w of
        None \<Rightarrow> None
      | Some (s, w') \<Rightarrow> Some (if ok s then Continue else Next s, w'))"

text \<open>Lines 63 to 83: the call itself failed.\<close>

definition on_rpc_failure :: "Status \<Rightarrow> OpenState \<Rightarrow> (Flow \<times> OpenState) option" where
  "on_rpc_failure s w =
     (if \<not> ok s then
        (case (if IsNetworkError s then rediscover w else Some (Next s, w)) of
           None \<Rightarrow> None
         | Some (Continue, w1) \<Rightarrow> Some (Continue, w1)
         | Some (Next s1, w1) \<Rightarrow>
             if IsTimedOut s1 then rediscover w1 else Some (Next s1, w1))
      else Some (Next s, w))"

text \<open>Lines 84 to 98: the call succeeded and the response carries an error.\<close>

definition on_resp_error ::
  "Status \<Rightarrow> GetTableLocationsResponsePB \<Rightarrow> OpenState \<Rightarrow> (Flow \<times> OpenState) option" where
  "on_resp_error s resp w =
     (if ok s \<and> has_error resp then
        (case (if error_code (the (resp_error resp)) = NOT_THE_LEADER \<or>
                  error_code (the (resp_error resp)) = CATALOG_MANAGER_NOT_INITIALIZED
               then rediscover w else Some (Next s, w)) of
           None \<Rightarrow> None
         | Some (Continue, w1) \<Rightarrow> Some (Continue, w1)
         | Some (Next s1, w1) \<Rightarrow>
             Some (Next (if ok s1 then StatusFromPB (error_status (the (resp_error resp)))
                         else s1), w1))
      else Some (Next s, w))"

text \<open>The message of the deadline's status, from the configured timeout.\<close>

definition timed_out_message :: "int \<Rightarrow> string" where
  "timed_out_message timeout_millis =
     ''Timed out waiting for non-empty GetTableLocations reply from a leader master after ''
       @ decimal timeout_millis @ '' ms.''"

text \<open>
  The \<^verbatim>\<open>while (true)\<close> loop. Each iteration starts by reading the clock; the readings are
  the list the recursion runs over, so a run that outlives the readings has no result.
\<close>

fun Open_loop ::
  "string \<Rightarrow> MonoTime \<Rightarrow> MonoTime list \<Rightarrow> OpenState \<Rightarrow> (Status \<times> OpenState) option" where
  "Open_loop name deadline [] w = None"
| "Open_loop name deadline (now # clock) w =
     (if ComesBefore deadline now then
        Some (TimedOut (timed_out_message
                (ToMilliseconds (default_select_master_timeout (client w)))), w)
      else
        (case GetTableLocations name w of
           None \<Rightarrow> None
         | Some ((s, resp), w1) \<Rightarrow>
            (case on_rpc_failure s w1 of
               None \<Rightarrow> None
             | Some (Continue, w2) \<Rightarrow> Open_loop name deadline clock w2
             | Some (Next s2, w2) \<Rightarrow>
                (case on_resp_error s2 resp w2 of
                   None \<Rightarrow> None
                 | Some (Continue, w3) \<Rightarrow> Open_loop name deadline clock w3
                 | Some (Next s3, w3) \<Rightarrow>
                     if \<not> ok s3 then Open_loop name deadline clock w3
                     else if tablet_locations_size resp > 0 then Some (OK, w3)
                     else Open_loop name deadline clock (usleep 100000 w3)))))"

text \<open>
  \<^verbatim>\<open>Open\<close>: the first reading of the clock fixes the deadline, the rest are the loop's.
\<close>

definition Open :: "string \<Rightarrow> MonoTime list \<Rightarrow> OpenState \<Rightarrow> (Status \<times> OpenState) option" where
  "Open name clock w =
     (case clock of
        [] \<Rightarrow> None
      | t0 # rest \<Rightarrow>
          Open_loop name (AddDelta t0 (default_select_master_timeout (client w))) rest w)"

text \<open>The status the deadline check returns for a client's configuration.\<close>

definition deadline_status :: "OpenState \<Rightarrow> Status" where
  "deadline_status w =
     TimedOut (timed_out_message (ToMilliseconds (default_select_master_timeout (client w))))"

text \<open>
  An error outcome of the call that is none of: a network error, a timed-out call, a
  response whose error code is \<open>NOT_THE_LEADER\<close> or \<open>CATALOG_MANAGER_NOT_INITIALIZED\<close>.
  Either the call's own status is some other error, or the call succeeded and the response
  carries an error of another code whose status is not OK.
\<close>

definition other_error :: "Status \<Rightarrow> GetTableLocationsResponsePB \<Rightarrow> bool" where
  "other_error s resp =
     (if ok s then
        (case resp_error resp of
           None \<Rightarrow> False
         | Some e \<Rightarrow> error_code e \<noteq> NOT_THE_LEADER \<and>
                     error_code e \<noteq> CATALOG_MANAGER_NOT_INITIALIZED \<and>
                     \<not> ok (StatusFromPB (error_status e)))
      else \<not> IsNetworkError s \<and> \<not> IsTimedOut s)"

subsection \<open>Concrete runs\<close>

text \<open>
  A client with a five-second deadline for finding the master, and the replies and
  elections the examples below are built from.
\<close>

definition example_client :: KuduClient_Data where
  "example_client =
     \<lparr>default_select_master_timeout = 5000000000, leader_master_hostport = ''master-1:7051'',
      tablet_location_cache = Map.empty\<rparr>"

definition example_location :: TabletLocationsPB where
  "example_location = \<lparr>tablet_id = ''fake-table'', replicas = [''ts-0:7050'']\<rparr>"

definition located_response :: GetTableLocationsResponsePB where
  "located_response = \<lparr>resp_error = None, tablet_locations = [example_location]\<rparr>"

definition no_tablets_response :: GetTableLocationsResponsePB where
  "no_tablets_response = \<lparr>resp_error = None, tablet_locations = []\<rparr>"

definition not_found_response :: GetTableLocationsResponsePB where
  "not_found_response =
     \<lparr>resp_error = Some \<lparr>error_code = OTHER_CODE 3,
                           error_status = Status kNotFound ''The table does not exist''\<rparr>,
      tablet_locations = []\<rparr>"

definition not_leader_response :: GetTableLocationsResponsePB where
  "not_leader_response =
     \<lparr>resp_error = Some \<lparr>error_code = NOT_THE_LEADER,
                           error_status = Status kIllegalState ''Not the leader''\<rparr>,
      tablet_locations = []\<rparr>"

definition connection_refused :: Status where
  "connection_refused = Status kNetworkError ''Connection refused''"

definition example_state ::
  "(Status \<times> GetTableLocationsResponsePB) list \<Rightarrow> (Status \<times> HostPort) list \<Rightarrow> OpenState" where
  "example_state rs es =
     \<lparr>client = example_client, replies = map (\<lambda>r hp name. r) rs, elections = es,
      slept_usec = 0\<rparr>"

section \<open>Rows and the test fixture\<close>

text \<open>
  The fixture of client-test.cc. Its schema (\<^verbatim>\<open>ClientTest\<close>'s constructor) has the columns
  \<open>key\<close> and \<open>int_val\<close> of type \<^verbatim>\<open>UINT32\<close> and the nullable \<open>string_val\<close> of type
  \<^verbatim>\<open>STRING\<close>, the first of them the key. \<^verbatim>\<open>Schema\<close>, \<^verbatim>\<open>ColumnSchema\<close> and the row
  classes are declared outside the sources; a row is the list of its cells in column order,
  a cell that has not been set being \<open>None\<close>.
\<close>

datatype DataType = UINT32 | STRING

record ColumnSchema =
  col_name :: string
  col_type :: DataType
  is_nullable :: bool

record Schema =
  columns :: "ColumnSchema list"
  num_key_columns :: nat

datatype Cell = UInt32Cell "32 word" | StringCell string

type_synonym Row = "Cell option list"

definition test_schema :: Schema where
  "test_schema =
     \<lparr>columns = [\<lparr>col_name = ''key'', col_type = UINT32, is_nullable = False\<rparr>,
                 \<lparr>col_name = ''int_val'', col_type = UINT32, is_nullable = False\<rparr>,
                 \<lparr>col_name = ''string_val'', col_type = STRING, is_nullable = True\<rparr>],
      num_key_columns = 1\<rparr>"

text \<open>
  \<^verbatim>\<open>BuildTestRow(int index)\<close>: the key is the index, \<open>int_val\<close> twice the index, both
  stored as \<^verbatim>\<open>uint32\<close> (the low 32 bits of the \<^verbatim>\<open>int\<close>), and the string is
  \<^verbatim>\<open>StringPrintf("hello %d", index)\<close>.
\<close>

definition BuildTestRow :: "int \<Rightarrow> Row" where
  "BuildTestRow index =
     [Some (UInt32Cell (word_of_int index)), Some (UInt32Cell (word_of_int (index * 2))),
      Some (StringCell (''hello '' @ decimal index))]"

text \<open>
  Modelled from the spec: the storage engine that applies writes to a tablet and serves
  scans, an external collaborator whose code is not among the sources. A tablet holds its
  rows in the order they were written; the first \<open>key_columns\<close> cells of a row are its
  primary key, and a row whose key is already present is rejected as AlreadyPresent
  (duplicate key on write) and changes nothing.
\<close>

record Tablet =
  key_columns :: nat
  stored :: "Row list"

text \<open>Modelled from the spec: the primary key of a row, its key-column prefix.\<close>

definition row_key :: "nat \<Rightarrow> Row \<Rightarrow> Row" where
  "row_key n r = take n r"

text \<open>Modelled from the spec: the keys a tablet holds.\<close>

definition tablet_keys :: "Tablet \<Rightarrow> Row set" where
  "tablet_keys t = set (map (row_key (key_columns t)) (stored t))"

text \<open>Modelled from the spec: the tablet's insert, rejecting a duplicate primary key.\<close>

definition tablet_Insert :: "Tablet \<Rightarrow> Row \<Rightarrow> Status \<times> Tablet" where
  "tablet_Insert t r =
     (if row_key (key_columns t) r \<in> tablet_keys t
      then (Status kAlreadyPresent ''key already present'', t)
      else (OK, t\<lparr>stored := stored t @ [r]\<rparr>))"

text \<open>
  \<^verbatim>\<open>InsertTestRows(int num_rows)\<close>: the loop \<^verbatim>\<open>for (int i = 0; i < num_rows; i++)\<close> inserts
  \<^verbatim>\<open>BuildTestRow(i)\<close> straight into the tablet. \<^verbatim>\<open>CHECK_OK\<close> aborts the process on a
  failed insert: there is no tablet afterwards (\<open>None\<close>).
\<close>

function InsertTestRows_from :: "int \<Rightarrow> int \<Rightarrow> Tablet \<Rightarrow> Tablet option" where
  "InsertTestRows_from i num_rows t =
     (if i < num_rows then
        (case tablet_Insert t (BuildTestRow i) of
           (s, t') \<Rightarrow> if ok s then InsertTestRows_from (i + 1) num_rows t' else None)
      else Some t)"
  by pat_completeness auto
termination
  by (relation "measure (\<lambda>(i, num_rows, t). nat (num_rows - i))") auto

declare InsertTestRows_from.simps [simp del]

definition InsertTestRows :: "int \<Rightarrow> Tablet \<Rightarrow> Tablet option" where
  "InsertTestRows num_rows t = InsertTestRows_from 0 num_rows t"

section \<open>Scanning\<close>

text \<open>
  Modelled from the spec: the client scan cursor (\<^verbatim>\<open>KuduScanner\<close>) and the scan the tablet
  serves, neither of which is among the sources. A scan with no predicate returns every row
  of the tablet once, projected to the requested columns, and the scanner hands the rows out
  in successive batches until they are exhausted. The scanner holds the projected rows not
  yet handed out and the number of rows that fit one batch.
\<close>

record KuduScanner =
  scan_remaining :: "Row list"
  batch_rows :: nat

text \<open>Modelled from the spec: the projection of a row to a list of column indexes.\<close>

definition project :: "nat list \<Rightarrow> Row \<Rightarrow> Row" where
  "project idxs r = map (\<lambda>i. if i < length r then r ! i else None) idxs"

text \<open>
  \<^verbatim>\<open>schema_.CreateKeyProjection()\<close>, a method of the \<^verbatim>\<open>Schema\<close> class declared outside the
  sources: by its name, the indexes of the key columns.
\<close>

definition CreateKeyProjection :: "Schema \<Rightarrow> nat list" where
  "CreateKeyProjection sch = [0 ..< num_key_columns sch]"

text \<open>Modelled from the spec: opening a scan with no predicate on a tablet.\<close>

definition scanner_Open :: "Tablet \<Rightarrow> nat list \<Rightarrow> nat \<Rightarrow> KuduScanner" where
  "scanner_Open t projection n =
     \<lparr>scan_remaining = map (project projection) (stored t), batch_rows = n\<rparr>"

text \<open>Modelled from the spec: more batches are expected while rows remain.\<close>

definition HasMoreRows :: "KuduScanner \<Rightarrow> bool" where
  "HasMoreRows sc = (scan_remaining sc \<noteq> [])"

text \<open>
  Modelled from the spec: pulling the next batch, which holds the next rows, as many as fit
  and at least one.
\<close>

definition NextBatch :: "KuduScanner \<Rightarrow> Row list \<times> KuduScanner" where
  "NextBatch sc =
     (take (max 1 (batch_rows sc)) (scan_remaining sc),
      sc\<lparr>scan_remaining := drop (max 1 (batch_rows sc)) (scan_remaining sc)\<rparr>)"

text \<open>
  \<^verbatim>\<open>DoTestScanWithoutPredicates\<close>, lines 114 to 124. The body of
  \<^verbatim>\<open>BOOST_FOREACH\<close> reads column 0 of the projected row as a \<^verbatim>\<open>uint32_t\<close> and adds it,
  widened, to the \<^verbatim>\<open>uint64_t\<close> sum (\<open>acc\<close> here). Reading a cell that is not a \<^verbatim>\<open>UINT32\<close> has no
  defined result (\<open>None\<close>).
\<close>

definition ExtractUInt32 :: "Row \<Rightarrow> nat \<Rightarrow> 32 word option" where
  "ExtractUInt32 r i =
     (if i < length r then (case r ! i of Some (UInt32Cell v) \<Rightarrow> Some v | _ \<Rightarrow> None) else None)"

fun add_rows :: "Row list \<Rightarrow> 64 word \<Rightarrow> 64 word option" where
  "add_rows [] acc = Some acc"
| "add_rows (r # rs) acc =
     (case ExtractUInt32 r 0 of
        None \<Rightarrow> None
      | Some to_add \<Rightarrow> add_rows rs (acc + ucast to_add))"

function scan_sum :: "KuduScanner \<Rightarrow> 64 word \<Rightarrow> 64 word option" where
  "scan_sum sc acc =
     (if HasMoreRows sc then
        (case NextBatch sc of
           (rs, sc') \<Rightarrow>
             (case add_rows rs acc of None \<Rightarrow> None | Some acc' \<Rightarrow> scan_sum sc' acc'))
      else Some acc)"
  by pat_completeness auto
termination
  by (relation "measure (\<lambda>(sc, acc). length (scan_remaining sc))")
     (auto simp: HasMoreRows_def NextBatch_def)

declare scan_sum.simps [simp del]

text \<open>
  Lines 127 and 128: the expected value, \<^verbatim>\<open>uint64_t(n) * (0 + (n - 1)) / 2\<close> for the
  \<^verbatim>\<open>int32\<close> flag \<open>n\<close>; the subtraction is done on \<^verbatim>\<open>int\<close>, the product and the
  quotient on \<^verbatim>\<open>uint64_t\<close>.
\<close>

definition expected_sum :: "int \<Rightarrow> 64 word" where
  "expected_sum n = (word_of_int n * word_of_int (0 + (n - 1))) div 2"

text \<open>
  \<^verbatim>\<open>DoTestScanWithoutPredicates\<close> as a whole, lines 106 to 131, on the tablet behind
  \<^verbatim>\<open>client_table_\<close>, for the value of the flag \<^verbatim>\<open>test_scan_num_rows\<close> and a scanner whose
  batches hold \<open>n\<close> rows. The scanner is opened with the key projection; line 113 asserts
  that it has rows, and the test stops there when it has none; then the loop sums the keys,
  and line 129 compares the sum with the expected value. The outcome names the assertion
  that failed by its line, or says that all passed and with what sum. Setting the
  projection, opening and pulling a batch do not fail in the scanner modelled here.
\<close>

datatype 'a TestOutcome = Passed 'a | AssertionFailed nat

definition DoTestScanWithoutPredicates ::
  "Tablet \<Rightarrow> int \<Rightarrow> nat \<Rightarrow> 64 word TestOutcome option" where
  "DoTestScanWithoutPredicates t test_scan_num_rows n =
     (let scanner = scanner_Open t (CreateKeyProjection test_schema) n in
      if \<not> HasMoreRows scanner then Some (AssertionFailed 113)
      else (case scan_sum scanner 0 of
              None \<Rightarrow> None
            | Some acc \<Rightarrow>
                if expected_sum test_scan_num_rows = acc then Some (Passed acc)
                else Some (AssertionFailed 129)))"

text \<open>
  Modelled from the spec: the rows a scan returns, which are the batches pulled one after
  another until no more rows are expected.
\<close>

function scan_all :: "KuduScanner \<Rightarrow> Row list list" where
  "scan_all sc =
     (if HasMoreRows sc then (case NextBatch sc of (rs, sc') \<Rightarrow> rs # scan_all sc') else [])"
  by pat_completeness auto
termination
  by (relation "measure (\<lambda>sc. length (scan_remaining sc))")
     (auto simp: HasMoreRows_def NextBatch_def)

declare scan_all.simps [simp del]

text \<open>
  The sum of the key column over rows, as a number: column 0 of each row read as an unsigned
  32-bit value, with no result (\<open>None\<close>) if a row has no such cell.
\<close>

fun key_column_sum :: "Row list \<Rightarrow> nat option" where
  "key_column_sum [] = Some 0"
| "key_column_sum (r # rs) =
     (case ExtractUInt32 r 0 of
        None \<Rightarrow> None
      | Some k \<Rightarrow> map_option (\<lambda>n. unat k + n) (key_column_sum rs))"

text \<open>The tablet of the fixture before any row is written: one key column, no row.\<close>

definition empty_tablet :: Tablet where
  "empty_tablet = \<lparr>key_columns = num_key_columns test_schema, stored = []\<rparr>"

text \<open>The key projection of the test row with index \<open>j\<close>.\<close>

definition key_row :: "nat \<Rightarrow> Row" where
  "key_row j = [Some (UInt32Cell (word_of_nat j))]"

section \<open>The write session\<close>

text \<open>
  Modelled from the spec: the table handle (name and schema as known to the client), whose
  class \<^verbatim>\<open>KuduTable\<close> is declared outside the sources.
\<close>

record KuduTable =
  table_name :: string
  table_schema :: Schema

text \<open>
  Modelled from the spec: a pending write operation, its owning table and its row payload.
  \<^verbatim>\<open>KuduTable::NewInsert\<close> is the only operation the tests build, so the kind is always
  Insert.
\<close>

record Insert =
  op_table :: KuduTable
  op_row :: Row

text \<open>
  Modelled from the spec: the textual description of an operation, whose \<^verbatim>\<open>ToString\<close> is
  not among the sources, in the form the tests expect: the kind, then for each cell that is
  set, in column order and separated by commas, the type, the column name and the value
  (\<^verbatim>\<open>INSERT uint32 key=1, uint32 int_val=1, string string_val=x\<close>). First the name of a
  column type.
\<close>

definition type_text :: "DataType \<Rightarrow> string" where
  "type_text ty = (case ty of UINT32 \<Rightarrow> ''uint32'' | STRING \<Rightarrow> ''string'')"

text \<open>Modelled from the spec: the value of a cell in an operation's description.\<close>

definition cell_text :: "Cell \<Rightarrow> string" where
  "cell_text c = (case c of UInt32Cell v \<Rightarrow> decimal_nat (unat v) | StringCell s \<Rightarrow> s)"

text \<open>Modelled from the spec: the parts of a description, joined by a separator.\<close>

fun join_with :: "string \<Rightarrow> string list \<Rightarrow> string" where
  "join_with sep [] = []"
| "join_with sep [x] = x"
| "join_with sep (x # y # ys) = x @ sep @ join_with sep (y # ys)"

text \<open>
  Modelled from the spec: the described cells of a row, those that are set, each with its
  column's type and name.
\<close>

fun cells_text :: "ColumnSchema list \<Rightarrow> Row \<Rightarrow> string list" where
  "cells_text (c # cs) (Some v # vs) =
     (type_text (col_type c) @ '' '' @ col_name c @ ''='' @ cell_text v) # cells_text cs vs"
| "cells_text (c # cs) (None # vs) = cells_text cs vs"
| "cells_text cs vs = []"

text \<open>Modelled from the spec: the description of an insert.\<close>

definition Insert_ToString :: "Insert \<Rightarrow> string" where
  "Insert_ToString op =
     ''INSERT '' @ join_with '', '' (cells_text (columns (table_schema (op_table op))) (op_row op))"

text \<open>Modelled from the spec: a new insert for a table has no cell set.\<close>

definition NewInsert :: "KuduTable \<Rightarrow> Insert" where
  "NewInsert tbl =
     \<lparr>op_table = tbl, op_row = replicate (length (columns (table_schema tbl))) None\<rparr>"

text \<open>Modelled from the spec: the position of the column of a given name, if there is one.\<close>

fun column_index :: "ColumnSchema list \<Rightarrow> string \<Rightarrow> nat option" where
  "column_index [] name = None"
| "column_index (c # cs) name =
     (if col_name c = name then Some 0 else map_option Suc (column_index cs name))"

text \<open>
  Modelled from the spec: setting a cell by column name (\<^verbatim>\<open>SetUInt32\<close>,
  \<^verbatim>\<open>SetStringCopy\<close>), which fails for a name the client's schema does not have.
\<close>

definition SetCell :: "string \<Rightarrow> Cell \<Rightarrow> Insert \<Rightarrow> Status \<times> Insert" where
  "SetCell name v op =
     (case column_index (columns (table_schema (op_table op))) name of
        None \<Rightarrow> (Status kNotFound (''No such column: '' @ name), op)
      | Some i \<Rightarrow> (OK, op\<lparr>op_row := (op_row op)[i := Some v]\<rparr>))"

text \<open>Modelled from the spec: the key cells of an operation, by the client's schema.\<close>

definition key_of :: "Insert \<Rightarrow> Row" where
  "key_of op = row_key (num_key_columns (table_schema (op_table op))) (op_row op)"

text \<open>Modelled from the spec: an operation has its key when every key column is set.\<close>

definition key_specified :: "Insert \<Rightarrow> bool" where
  "key_specified op =
     (length (key_of op) = num_key_columns (table_schema (op_table op)) \<and>
      None \<notin> set (key_of op))"

text \<open>
  Modelled from the spec: an error record, the failed operation's original textual
  description with the status returned by the server or the transport.
\<close>

record ErrorRecord =
  failed_op :: string
  record_status :: Status

text \<open>
  Modelled from the spec: the error collector, a bounded store with an overflow flag. A
  record that arrives when the store is full is discarded and sets the flag.
\<close>

record ErrorCollector =
  capacity :: nat
  pending_errors :: "ErrorRecord list"
  overflowed :: bool

text \<open>Modelled from the spec: recording an error in the collector.\<close>

definition AddError :: "ErrorRecord \<Rightarrow> ErrorCollector \<Rightarrow> ErrorCollector" where
  "AddError e ec =
     (if length (pending_errors ec) < capacity ec
      then ec\<lparr>pending_errors := pending_errors ec @ [e]\<rparr>
      else ec\<lparr>overflowed := True\<rparr>)"

text \<open>
  Modelled from the spec: the session, in manual flush mode (the mode every test sets): the
  operations buffered and not yet dispatched, and the embedded error collector.
\<close>

record KuduSession =
  buffered_ops :: "Insert list"
  error_collector :: ErrorCollector

text \<open>
  Modelled from the spec: a new session has nothing buffered and an empty collector, whose
  capacity comes from the client's configuration.
\<close>

definition NewSession :: "nat \<Rightarrow> KuduSession" where
  "NewSession cap =
     \<lparr>buffered_ops = [],
      error_collector = \<lparr>capacity = cap, pending_errors = [], overflowed = False\<rparr>\<rparr>"


text \<open>
  Modelled from the spec: draining the collector returns the records and whether any was
  discarded since the last drain.
\<close>

definition GetPendingErrors :: "KuduSession \<Rightarrow> (ErrorRecord list \<times> bool) \<times> KuduSession" where
  "GetPendingErrors s =
     ((pending_errors (error_collector s), overflowed (error_collector s)),
      s\<lparr>error_collector := (error_collector s)\<lparr>pending_errors := [], overflowed := False\<rparr>\<rparr>)"

text \<open>
  Modelled from the spec: \<^verbatim>\<open>Apply\<close>. An operation without its key fails with an illegal
  state error that describes it, is not buffered, and stays with the caller; otherwise it is
  buffered and the caller's handle is empty afterwards.
\<close>

definition Apply :: "KuduSession \<Rightarrow> Insert \<Rightarrow> Status \<times> KuduSession \<times> Insert option" where
  "Apply s op =
     (if key_specified op
      then (OK, s\<lparr>buffered_ops := buffered_ops s @ [op]\<rparr>, None)
      else (Status kIllegalState (''Key not specified: '' @ Insert_ToString op), s, Some op))"

text \<open>
  \<^verbatim>\<open>ApplyInsertToSession\<close> of client-test.cc: a new insert for the table, the three cells
  set (each \<^verbatim>\<open>RETURN_NOT_OK\<close> leaves with the failure), then applied.
\<close>

definition ApplyInsertToSession ::
  "KuduSession \<Rightarrow> KuduTable \<Rightarrow> int \<Rightarrow> int \<Rightarrow> string \<Rightarrow> Status \<times> KuduSession" where
  "ApplyInsertToSession session tbl row_key_val int_val string_val =
     (case SetCell ''key'' (UInt32Cell (word_of_int row_key_val)) (NewInsert tbl) of
        (s1, op1) \<Rightarrow>
          if \<not> ok s1 then (s1, session)
          else (case SetCell ''int_val'' (UInt32Cell (word_of_int int_val)) op1 of
            (s2, op2) \<Rightarrow>
              if \<not> ok s2 then (s2, session)
              else (case SetCell ''string_val'' (StringCell string_val) op2 of
                (s3, op3) \<Rightarrow>
                  if \<not> ok s3 then (s3, session)
                  else (case Apply session op3 of (s4, session', handle) \<Rightarrow> (s4, session')))))"

text \<open>
  Modelled from the spec: what a session talks to. Resolution gives each operation its
  destination tablet or fails with a status; a storage server that can be reached holds the
  tablet, one that cannot has no entry.
\<close>

record Cluster =
  resolution :: "Insert \<Rightarrow> Status + string"
  servers :: "string \<rightharpoonup> Tablet"

text \<open>
  Modelled from the spec: the write call for one batch, which gives one result per row.
  Each row is inserted in turn; a rejected row leaves the tablet as it was.
\<close>

fun Write :: "Tablet \<Rightarrow> Insert list \<Rightarrow> Status list \<times> Tablet" where
  "Write t [] = ([], t)"
| "Write t (op # ops) =
     (case tablet_Insert t (op_row op) of
        (s, t') \<Rightarrow> (case Write t' ops of (ss, t'') \<Rightarrow> (s # ss, t'')))"

text \<open>Modelled from the spec: the error records of a batch, one per row that failed.\<close>

definition failed_rows :: "Insert list \<Rightarrow> Status list \<Rightarrow> ErrorRecord list" where
  "failed_rows ops ss =
     map (\<lambda>(op, s). \<lparr>failed_op = Insert_ToString op, record_status = s\<rparr>)
       (filter (\<lambda>(op, s). \<not> ok s) (zip ops ss))"

text \<open>
  Modelled from the spec: dispatching one batch to its tablet. A destination that cannot be
  reached fails every operation of the batch with a network error, one record each;
  otherwise the rows the server rejected give the records.
\<close>

definition dispatch_batch ::
  "string \<Rightarrow> Insert list \<Rightarrow> Cluster \<Rightarrow> ErrorRecord list \<times> Cluster" where
  "dispatch_batch tid ops c =
     (case servers c tid of
        None \<Rightarrow>
          (failed_rows ops (map (\<lambda>op. Status kNetworkError ''Connection refused'') ops), c)
      | Some t \<Rightarrow>
          (case Write t ops of
             (ss, t') \<Rightarrow> (failed_rows ops ss, c\<lparr>servers := (servers c)(tid \<mapsto> t')\<rparr>)))"

text \<open>
  Modelled from the spec: the records of the operations of a round whose resolution failed,
  each with the status of the failure.
\<close>

definition unresolved_ops :: "Cluster \<Rightarrow> Insert list \<Rightarrow> ErrorRecord list" where
  "unresolved_ops c ops =
     concat (map (\<lambda>op. case resolution c op of
                          Inl s \<Rightarrow> [\<lparr>failed_op = Insert_ToString op, record_status = s\<rparr>]
                        | Inr tid \<Rightarrow> []) ops)"

text \<open>Modelled from the spec: the operations of a round that resolved, each with its tablet.\<close>

definition resolved_ops :: "Cluster \<Rightarrow> Insert list \<Rightarrow> (string \<times> Insert) list" where
  "resolved_ops c ops =
     concat (map (\<lambda>op. case resolution c op of Inl s \<Rightarrow> [] | Inr tid \<Rightarrow> [(tid, op)]) ops)"

text \<open>Modelled from the spec: the batch of a tablet, its operations in the order applied.\<close>

definition batch_for :: "string \<Rightarrow> (string \<times> Insert) list \<Rightarrow> Insert list" where
  "batch_for tid rs = map snd (filter (\<lambda>r. fst r = tid) rs)"

text \<open>Modelled from the spec: one batch per tablet, each dispatched on its own.\<close>

fun dispatch_all ::
  "string list \<Rightarrow> (string \<times> Insert) list \<Rightarrow> Cluster \<Rightarrow> ErrorRecord list \<times> Cluster" where
  "dispatch_all [] rs c = ([], c)"
| "dispatch_all (tid # tids) rs c =
     (case dispatch_batch tid (batch_for tid rs) c of
        (es, c') \<Rightarrow> (case dispatch_all tids rs c' of (es', c'') \<Rightarrow> (es @ es', c'')))"

text \<open>Modelled from the spec: the error records a flush round produces.\<close>

definition flush_round :: "Cluster \<Rightarrow> Insert list \<Rightarrow> ErrorRecord list \<times> Cluster" where
  "flush_round c ops =
     (case dispatch_all (remdups (map fst (resolved_ops c ops))) (resolved_ops c ops) c of
        (es, c') \<Rightarrow> (unresolved_ops c ops @ es, c'))"

text \<open>
  Modelled from the spec: \<^verbatim>\<open>FlushAsync\<close>. The buffer is taken and cleared, the round is
  run, its records go to the collector, and the callback is handed the result, once: the
  aggregate error exactly when the round produced a record. The round is complete when the
  call returns; how its batches interleave with the caller is not part of the model.
\<close>

definition FlushAsync ::
  "Cluster \<Rightarrow> KuduSession \<Rightarrow> (Status \<Rightarrow> 'r) \<Rightarrow> 'r \<times> KuduSession \<times> Cluster" where
  "FlushAsync c s callback =
     (case flush_round c (buffered_ops s) of
        (es, c') \<Rightarrow>
          (callback (if es = [] then OK else Status kIOError ''Some errors occurred''),
           s\<lparr>buffered_ops := [], error_collector := fold AddError es (error_collector s)\<rparr>,
           c'))"

text \<open>
  Modelled from the spec: \<^verbatim>\<open>Flush\<close>, the same mechanism with the caller waiting for the
  result: the callback gives the status back to the caller.
\<close>

definition Flush :: "Cluster \<Rightarrow> KuduSession \<Rightarrow> Status \<times> KuduSession \<times> Cluster" where
  "Flush c s = FlushAsync c s (\<lambda>st. st)"



text \<open>
  The cluster of the test fixture: one storage server with the two tablets
  \<open>fake-table\<close> and \<open>fake-table-2\<close>, each table resolving to the tablet of its name, and
  the two tables the fixture opens.
\<close>

definition client_table :: KuduTable where
  "client_table = \<lparr>table_name = ''fake-table'', table_schema = test_schema\<rparr>"


definition mini_cluster :: Cluster where
  "mini_cluster =
     \<lparr>resolution = (\<lambda>op. Inr (table_name (op_table op))),
      servers = [''fake-table'' \<mapsto> empty_tablet, ''fake-table-2'' \<mapsto> empty_tablet]\<rparr>"







text \<open>
  The cluster and the session of \<^verbatim>\<open>TestBatchWithPartialError\<close> at its second
  \<^verbatim>\<open>Flush\<close>, and the insert the three setters of \<^verbatim>\<open>ApplyInsertToSession\<close> build.
\<close>

definition partial_error_cluster :: Cluster where
  "partial_error_cluster =
     snd (snd (Flush mini_cluster
       (snd (ApplyInsertToSession (NewSession 10) client_table 1 1 ''original row''))))"

definition partial_error_session :: KuduSession where
  "partial_error_session =
     snd (ApplyInsertToSession
       (snd (ApplyInsertToSession
         (fst (snd (Flush mini_cluster
            (snd (ApplyInsertToSession (NewSession 10) client_table 1 1 ''original row'')))))
         client_table 1 1 ''Attempted dup''))
       client_table 2 1 ''Should succeed'')"

definition test_insert :: "int \<Rightarrow> int \<Rightarrow> string \<Rightarrow> Insert" where
  "test_insert k v s =
     \<lparr>op_table = client_table,
      op_row = [Some (UInt32Cell (word_of_int k)), Some (UInt32Cell (word_of_int v)),
                Some (StringCell s)]\<rparr>"


section \<open>Properties of Open\<close>

lemma ok_OK [simp]: "ok OK"
  by (simp add: ok_def OK_def)

lemma usleep_fields [simp]:
  "client (usleep us w) = client w"
  "replies (usleep us w) = replies w"
  "elections (usleep us w) = elections w"
  by (simp_all add: usleep_def)

lemma GetTableLocations_client:
  "GetTableLocations name w = Some (r, w') \<Longrightarrow> client w' = client w"
  by (auto simp: GetTableLocations_def split: list.splits)

lemma SetMasterServerProxy_timeout:
  "SetMasterServerProxy w = Some (s, w') \<Longrightarrow>
   default_select_master_timeout (client w') = default_select_master_timeout (client w)"
  by (auto simp: SetMasterServerProxy_def split: list.splits)

lemma rediscover_timeout:
  "rediscover w = Some (f, w') \<Longrightarrow>
   default_select_master_timeout (client w') = default_select_master_timeout (client w)"
  by (auto simp: rediscover_def split: option.splits dest: SetMasterServerProxy_timeout)

lemma on_rpc_failure_timeout:
  "on_rpc_failure s w = Some (f, w') \<Longrightarrow>
   default_select_master_timeout (client w') = default_select_master_timeout (client w)"
  by (auto simp: on_rpc_failure_def split: if_splits option.splits Flow.splits)
     (metis rediscover_timeout)+

lemma on_resp_error_timeout:
  "on_resp_error s resp w = Some (f, w') \<Longrightarrow>
   default_select_master_timeout (client w') = default_select_master_timeout (client w)"
  by (auto simp: on_resp_error_def split: if_splits option.splits Flow.splits)
     (metis rediscover_timeout)+

text \<open>
  Whatever the script, a run of the loop that returns, returns \<open>OK\<close> or the status of the
  deadline check: every other status met on the way ends its iteration in \<^verbatim>\<open>continue\<close>.
\<close>

lemma Open_loop_returns_OK_or_deadline:
  "Open_loop name deadline clock w = Some (s, w') \<Longrightarrow> s = OK \<or> s = deadline_status w"
proof (induction clock arbitrary: w)
  case Nil
  then show ?case by simp
next
  case (Cons now clock)
  show ?case
  proof (cases "ComesBefore deadline now")
    case True
    with Cons.prems show ?thesis by (auto simp: deadline_status_def)
  next
    case False
    from Cons.prems False obtain s0 resp w1 where
      g: "GetTableLocations name w = Some ((s0, resp), w1)"
      by (auto split: option.splits)
    have t1: "deadline_status w1 = deadline_status w"
      using GetTableLocations_client [OF g] by (simp add: deadline_status_def)
    from Cons.prems False g obtain f2 w2 where
      r: "on_rpc_failure s0 w1 = Some (f2, w2)"
      by (auto split: option.splits)
    have t2: "deadline_status w2 = deadline_status w"
      using on_rpc_failure_timeout [OF r] t1 by (simp add: deadline_status_def)
    show ?thesis
    proof (cases f2)
      case Continue
      with Cons.prems False g r have "Open_loop name deadline clock w2 = Some (s, w')"
        by simp
      from Cons.IH [OF this] t2 show ?thesis by simp
    next
      case (Next s2)
      from Cons.prems False g r Next obtain f3 w3 where
        e: "on_resp_error s2 resp w2 = Some (f3, w3)"
        by (auto split: option.splits)
      have t3: "deadline_status w3 = deadline_status w"
        using on_resp_error_timeout [OF e] t2 by (simp add: deadline_status_def)
      show ?thesis
      proof (cases f3)
        case Continue
        with Cons.prems False g r Next e
        have "Open_loop name deadline clock w3 = Some (s, w')" by simp
        from Cons.IH [OF this] t3 show ?thesis by simp
      next
        case (Next s3)
        note n3 = this
        show ?thesis
        proof (cases "ok s3")
          case False
          with Cons.prems \<open>\<not> ComesBefore deadline now\<close> g r \<open>f2 = Next s2\<close> e n3
          have "Open_loop name deadline clock w3 = Some (s, w')" by simp
          from Cons.IH [OF this] t3 show ?thesis by simp
        next
          case True
          show ?thesis
          proof (cases "tablet_locations_size resp > 0")
            case True
            with Cons.prems \<open>\<not> ComesBefore deadline now\<close> g r \<open>f2 = Next s2\<close> e n3 \<open>ok s3\<close>
            show ?thesis by simp
          next
            case False
            with Cons.prems \<open>\<not> ComesBefore deadline now\<close> g r \<open>f2 = Next s2\<close> e n3 \<open>ok s3\<close>
            have "Open_loop name deadline clock (usleep 100000 w3) = Some (s, w')" by simp
            from Cons.IH [OF this] t3 show ?thesis by (simp add: deadline_status_def)
          qed
        qed
      qed
    qed
  qed
qed

text \<open>Evaluating the concrete runs: the definitions to unfold.\<close>

lemmas run_defs =
  Open_def AddDelta_def ComesBefore_def GetTableLocations_def SetMasterServerProxy_def
  rediscover_def on_rpc_failure_def on_resp_error_def has_error_def tablet_locations_size_def
  StatusFromPB_def usleep_def ok_def OK_def IsNetworkError_def IsTimedOut_def
  example_state_def example_client_def located_response_def no_tablets_response_def
  not_found_response_def not_leader_response_def connection_refused_def

lemmas message_defs =
  TimedOut_def timed_out_message_def ToMilliseconds_def signed_divide_int_def decimal_def
  decimal_nat.simps digit_char_def

subsection \<open>Two runs\<close>

text \<open>
  A run that meets a refused connection, a master that is not the leader and a table with no
  tablet yet before it succeeds: the leader is looked up twice, the loop sleeps once. And a
  run against a cluster that cannot be reached, which ends at the deadline.
\<close>

lemma Open_example_run:
  "Open ''fake-table'' [0, 1, 2, 3, 4]
     (example_state
        [(connection_refused, no_tablets_response), (OK, not_leader_response),
         (OK, no_tablets_response), (OK, located_response)]
        [(OK, ''master-2:7051''), (OK, ''master-3:7051'')]) =
   Some (OK, \<lparr>client = example_client\<lparr>leader_master_hostport := ''master-3:7051''\<rparr>,
              replies = [], elections = [], slept_usec = 100000\<rparr>)"
  by (simp add: run_defs)

lemma Open_unreachable_run:
  "map_option fst (Open ''fake-table'' [0, 1, 3000000000, 6000000000]
     (example_state
        [(connection_refused, no_tablets_response), (connection_refused, no_tablets_response)]
        [(connection_refused, ''master-1:7051''), (connection_refused, ''master-1:7051'')]))
   = Some (TimedOut (timed_out_message 5000))"
  by (simp add: run_defs message_defs)

subsection \<open>Errors that are neither network errors, time-outs nor leader changes\<close>

text \<open>
  Claim C1 as stated fails. The master answers the first call with a response whose error
  has another code and the status NotFound, and the second call with a tablet location.
  The claim has \<^verbatim>\<open>Open\<close> return that NotFound status from the first iteration; the function
  goes round the loop again and returns \<open>OK\<close>.
\<close>

theorem Open_other_error_not_returned:
  "other_error OK not_found_response \<and>
   map_option fst (Open ''fake-table'' [0, 1, 2]
      (example_state [(OK, not_found_response), (OK, located_response)] [])) = Some OK \<and>
   OK \<noteq> Status kNotFound ''The table does not exist''"
  by (simp add: other_error_def run_defs)

text \<open>
  Claim C1, as amended. An error outcome that is neither a network error, nor a timed-out
  call, nor a response with a not-the-leader or catalog-not-initialized code is not returned
  to the caller: its iteration ends in \<^verbatim>\<open>continue\<close>, so the loop goes on from the next
  deadline check in the state the call left, with no rediscovery and no sleep; and whatever
  the loop returns in the end is \<open>OK\<close> or the time-out of the deadline check.
\<close>

theorem Open_other_error_retried:
  assumes "\<not> ComesBefore deadline now"
    and "GetTableLocations name w = Some ((s, resp), w1)"
    and "other_error s resp"
  shows "Open_loop name deadline (now # clock) w = Open_loop name deadline clock w1 \<and>
         (\<forall>st w'. Open_loop name deadline (now # clock) w = Some (st, w') \<longrightarrow>
            st = OK \<or> st = deadline_status w)"
proof
  show "Open_loop name deadline (now # clock) w = Open_loop name deadline clock w1"
    using assms
    by (auto simp: other_error_def on_rpc_failure_def on_resp_error_def has_error_def
             split: if_splits option.splits)
  show "\<forall>st w'. Open_loop name deadline (now # clock) w = Some (st, w') \<longrightarrow>
          st = OK \<or> st = deadline_status w"
    using Open_loop_returns_OK_or_deadline by blast
qed

theorem Open_other_error_retried_witness:
  "\<not> ComesBefore 5000000000 1 \<and> other_error OK not_found_response \<and>
   Open_loop ''fake-table'' 5000000000 [1, 2]
      (example_state [(OK, not_found_response), (OK, located_response)] []) =
   Open_loop ''fake-table'' 5000000000 [2] (example_state [(OK, located_response)] []) \<and>
   Open_loop ''fake-table'' 5000000000 [2] (example_state [(OK, located_response)] []) =
   Some (OK, example_state [] [])"
proof -
  have a: "\<not> ComesBefore 5000000000 1"
    by (simp add: ComesBefore_def)
  have b: "GetTableLocations ''fake-table''
             (example_state [(OK, not_found_response), (OK, located_response)] []) =
           Some ((OK, not_found_response), example_state [(OK, located_response)] [])"
    by (simp add: GetTableLocations_def example_state_def)
  have c: "other_error OK not_found_response"
    by (simp add: other_error_def run_defs)
  have d: "Open_loop ''fake-table'' 5000000000 [2] (example_state [(OK, located_response)] []) =
           Some (OK, example_state [] [])"
    by (simp add: run_defs)
  from Open_other_error_retried [OF a b c, of "[2]"] a c d show ?thesis
    by blast
qed

subsection \<open>The deadline check\<close>

text \<open>
  Claim C5 as stated fails, in two ways. With the deadline five seconds after the start, a
  loop entry exactly at the deadline (current time equal to the deadline) is not a time-out:
  the call is made and \<^verbatim>\<open>Open\<close> returns \<open>OK\<close>. And at a loop entry seven seconds after
  the start the message of the time-out says 5000 ms, the configured timeout, not the 7000
  ms that have elapsed.
\<close>

theorem Open_deadline_message_not_elapsed:
  "AddDelta 0 (default_select_master_timeout example_client) \<le> 5000000000 \<and>
   map_option fst (Open ''fake-table'' [0, 5000000000]
      (example_state [(OK, located_response)] [])) = Some OK \<and>
   map_option fst (Open ''fake-table'' [0, 7000000000]
      (example_state [(OK, located_response)] [])) = Some (TimedOut (timed_out_message 5000)) \<and>
   ToMilliseconds (7000000000 - 0) = 7000 \<and>
   TimedOut (timed_out_message 5000) \<noteq> TimedOut (timed_out_message 7000)"
  by (simp add: run_defs message_defs)

text \<open>
  Claim C5, as amended. If at a loop entry the deadline comes strictly before the current
  time, the call fails with a TimedOut status, in the state it was entered with, and the
  message reports the configured master-selection timeout in milliseconds.
\<close>

theorem Open_loop_deadline_TimedOut:
  assumes "ComesBefore deadline now"
  shows "Open_loop name deadline (now # clock) w =
         Some (Status kTimedOut
                 (''Timed out waiting for non-empty GetTableLocations reply from a leader master after ''
                    @ decimal (ToMilliseconds (default_select_master_timeout (client w)))
                    @ '' ms.''), w)"
  using assms by (simp add: TimedOut_def timed_out_message_def)

theorem Open_loop_deadline_TimedOut_witness:
  "ComesBefore 5000000000 7000000000 \<and>
   Open_loop ''fake-table'' 5000000000 [7000000000] (example_state [(OK, located_response)] []) =
   Some (Status kTimedOut
     ''Timed out waiting for non-empty GetTableLocations reply from a leader master after 5000 ms.'',
     example_state [(OK, located_response)] [])"
proof -
  have a: "ComesBefore 5000000000 7000000000"
    by (simp add: ComesBefore_def)
  have m: "decimal (ToMilliseconds (default_select_master_timeout
             (client (example_state [(OK, located_response)] [])))) = ''5000''"
    by (simp add: example_state_def example_client_def message_defs)
  from Open_loop_deadline_TimedOut [OF a, of "''fake-table''" "[]"
      "example_state [(OK, located_response)] []"] a m
  show ?thesis by simp
qed

subsection \<open>A response with tablet locations\<close>

text \<open>
  Claim C6 as stated fails. The master answers with one tablet location for the table;
  \<^verbatim>\<open>Open\<close> returns \<open>OK\<close>, and the client's tablet-location cache still has no entry for
  the table.
\<close>

theorem Open_success_cache_not_updated:
  "map_option fst (Open ''fake-table'' [0, 1] (example_state [(OK, located_response)] []))
     = Some OK \<and>
   map_option (\<lambda>r. tablet_location_cache (client (snd r)) ''fake-table'')
      (Open ''fake-table'' [0, 1] (example_state [(OK, located_response)] [])) = Some None \<and>
   tablet_locations located_response = [example_location]"
  by (simp add: run_defs)

text \<open>
  Claim C6, as amended. When an iteration of the loop receives a successful response with
  no error and one or more tablet locations, \<^verbatim>\<open>Open\<close> ends with success. The locations
  are counted for the log line and dropped: the state returned is the one the call left, and
  the client, its tablet-location cache included, is as it was when the iteration began.
\<close>

theorem Open_loop_success_leaves_client:
  assumes "\<not> ComesBefore deadline now"
    and "GetTableLocations name w = Some ((s, resp), w1)"
    and "ok s" and "\<not> has_error resp" and "tablet_locations_size resp > 0"
  shows "Open_loop name deadline (now # clock) w = Some (OK, w1) \<and> client w1 = client w \<and>
         tablet_location_cache (client w1) = tablet_location_cache (client w)"
  using assms GetTableLocations_client [OF assms(2)]
  by (auto simp: on_rpc_failure_def on_resp_error_def)

theorem Open_loop_success_leaves_client_witness:
  "\<not> ComesBefore 5000000000 1 \<and> ok OK \<and> \<not> has_error located_response \<and>
   tablet_locations_size located_response > 0 \<and>
   Open_loop ''fake-table'' 5000000000 [1] (example_state [(OK, located_response)] []) =
     Some (OK, example_state [] []) \<and>
   client (example_state [] []) = client (example_state [(OK, located_response)] [])"
proof -
  have a: "\<not> ComesBefore 5000000000 1"
    by (simp add: ComesBefore_def)
  have b: "GetTableLocations ''fake-table'' (example_state [(OK, located_response)] []) =
           Some ((OK, located_response), example_state [] [])"
    by (simp add: GetTableLocations_def example_state_def)
  have c: "\<not> has_error located_response"
    by (simp add: has_error_def located_response_def)
  have d: "tablet_locations_size located_response > 0"
    by (simp add: tablet_locations_size_def located_response_def)
  from Open_loop_success_leaves_client [OF a b ok_OK c d, of "[]"] a c d show ?thesis
    by simp
qed

subsection \<open>The other outcomes of an iteration\<close>

text \<open>
  A successful response with no tablet sleeps 100 ms and tries again; a failed call that is a
  network error or a time-out, and a response that says the master is not the leader or not
  yet initialized, ask for the leader again and, when that succeeds, try again at once; a
  failed rediscovery is tried again as well.
\<close>

lemma zero_tablets_iteration:
  assumes "\<not> ComesBefore deadline now"
    and "GetTableLocations name w = Some ((s, resp), w1)"
    and "ok s" and "\<not> has_error resp" and "tablet_locations_size resp = 0"
  shows "Open_loop name deadline (now # clock) w = Open_loop name deadline clock (usleep 100000 w1)"
  using assms
  by (auto simp: on_rpc_failure_def on_resp_error_def)

lemma rpc_failure_rediscovered_iteration:
  assumes "\<not> ComesBefore deadline now"
    and "GetTableLocations name w = Some ((s, resp), w1)"
    and "IsNetworkError s \<or> IsTimedOut s"
    and "SetMasterServerProxy w1 = Some (s', w2)" and "ok s'"
  shows "Open_loop name deadline (now # clock) w = Open_loop name deadline clock w2"
  using assms
  by (auto simp: on_rpc_failure_def rediscover_def ok_def IsNetworkError_def IsTimedOut_def)

lemma not_leader_iteration:
  assumes "\<not> ComesBefore deadline now"
    and "GetTableLocations name w = Some ((s, resp), w1)"
    and "ok s" and "resp_error resp = Some e"
    and "error_code e = NOT_THE_LEADER \<or> error_code e = CATALOG_MANAGER_NOT_INITIALIZED"
    and "SetMasterServerProxy w1 = Some (s', w2)" and "ok s'"
  shows "Open_loop name deadline (now # clock) w = Open_loop name deadline clock w2"
  using assms
  by (auto simp: on_rpc_failure_def on_resp_error_def rediscover_def has_error_def)

lemma rediscovery_failure_iteration:
  assumes "\<not> ComesBefore deadline now"
    and "GetTableLocations name w = Some ((s, resp), w1)"
    and "IsNetworkError s"
    and "SetMasterServerProxy w1 = Some (s', w2)" and "\<not> ok s'" and "\<not> IsTimedOut s'"
  shows "Open_loop name deadline (now # clock) w = Open_loop name deadline clock w2"
  using assms
  by (auto simp: on_rpc_failure_def on_resp_error_def rediscover_def ok_def IsNetworkError_def IsTimedOut_def)

subsection \<open>The loop returns by the deadline\<close>

text \<open>
  An iteration makes one call to the master and asks for the leader at most twice. So if the
  master and the leader election answer every call made before it, the run returns at the
  latest at the first loop entry whose clock reading lies after the deadline.
\<close>

lemma GetTableLocations_Some:
  "replies w \<noteq> [] \<Longrightarrow>
   \<exists>r w1. GetTableLocations name w = Some (r, w1) \<and> replies w1 = tl (replies w) \<and>
          elections w1 = elections w"
  by (cases "replies w") (auto simp: GetTableLocations_def)

lemma rediscover_Some:
  "elections w \<noteq> [] \<Longrightarrow>
   \<exists>f w'. rediscover w = Some (f, w') \<and> replies w' = replies w \<and>
          elections w' = tl (elections w) \<and> (\<forall>s. f = Next s \<longrightarrow> \<not> ok s)"
  by (cases "elections w") (auto simp: rediscover_def SetMasterServerProxy_def)

lemma on_rpc_failure_ok: "ok s \<Longrightarrow> on_rpc_failure s w = Some (Next s, w)"
  by (simp add: on_rpc_failure_def)

lemma on_rpc_failure_Some:
  assumes "\<not> ok s" and "2 \<le> length (elections w)"
  shows "\<exists>f w'. on_rpc_failure s w = Some (f, w') \<and> replies w' = replies w \<and>
           length (elections w) \<le> length (elections w') + 2 \<and>
           (\<forall>s1. f = Next s1 \<longrightarrow> \<not> ok s1)"
proof (cases "IsNetworkError s")
  case False
  show ?thesis
  proof (cases "IsTimedOut s")
    case False
    with \<open>\<not> IsNetworkError s\<close> assms show ?thesis by (simp add: on_rpc_failure_def)
  next
    case True
    from assms have "elections w \<noteq> []" by auto
    from rediscover_Some [OF this] obtain f w' where
      "rediscover w = Some (f, w')" "replies w' = replies w"
      "elections w' = tl (elections w)" "\<forall>s. f = Next s \<longrightarrow> \<not> ok s" by blast
    with True \<open>\<not> IsNetworkError s\<close> assms show ?thesis
      by (auto simp: on_rpc_failure_def)
  qed
next
  case True
  from assms have ne: "elections w \<noteq> []" by auto
  from rediscover_Some [OF ne] obtain f w1 where
    r1: "rediscover w = Some (f, w1)" "replies w1 = replies w"
      "elections w1 = tl (elections w)" "\<forall>s. f = Next s \<longrightarrow> \<not> ok s" by blast
  show ?thesis
  proof (cases f)
    case Continue
    with r1 True assms show ?thesis by (auto simp: on_rpc_failure_def)
  next
    case (Next s1)
    show ?thesis
    proof (cases "IsTimedOut s1")
      case False
      with Next r1 True assms show ?thesis by (auto simp: on_rpc_failure_def)
    next
      case True
      from assms r1 have "elections w1 \<noteq> []" by (cases "elections w") auto
      from rediscover_Some [OF this] obtain f2 w2 where
        "rediscover w1 = Some (f2, w2)" "replies w2 = replies w1"
        "elections w2 = tl (elections w1)" "\<forall>s. f2 = Next s \<longrightarrow> \<not> ok s" by blast
      with True Next r1 \<open>IsNetworkError s\<close> assms show ?thesis
        by (auto simp: on_rpc_failure_def)
    qed
  qed
qed

lemma on_resp_error_not_ok: "\<not> ok s \<Longrightarrow> on_resp_error s resp w = Some (Next s, w)"
  by (simp add: on_resp_error_def)

lemma on_resp_error_Some:
  assumes "elections w \<noteq> []"
  shows "\<exists>f w'. on_resp_error s resp w = Some (f, w') \<and> replies w' = replies w \<and>
           length (elections w) \<le> length (elections w') + 1"
proof -
  from rediscover_Some [OF assms] obtain f w' where
    "rediscover w = Some (f, w')" "replies w' = replies w"
    "elections w' = tl (elections w)" by blast
  then show ?thesis
    by (cases f) (auto simp: on_resp_error_def)
qed

lemma Open_loop_returns_by_deadline:
  assumes "ComesBefore deadline t"
    and "length pre \<le> length (replies w)"
    and "2 * length pre \<le> length (elections w)"
  shows "\<exists>r. Open_loop name deadline (pre @ t # post) w = Some r"
  using assms(2,3)
proof (induction pre arbitrary: w)
  case Nil
  with assms(1) show ?case by simp
next
  case (Cons now pre)
  show ?case
  proof (cases "ComesBefore deadline now")
    case True
    then show ?thesis by simp
  next
    case False
    from Cons.prems have "replies w \<noteq> []" by auto
    from GetTableLocations_Some [OF this, of name] obtain s resp w1 where
      g: "GetTableLocations name w = Some ((s, resp), w1)"
        "replies w1 = tl (replies w)" "elections w1 = elections w"
      by (metis surj_pair)
    from g Cons.prems have l1: "length pre \<le> length (replies w1)"
      "2 * length pre + 2 \<le> length (elections w1)" by auto
    show ?thesis
    proof (cases "ok s")
      case True
      from l1 have "elections w1 \<noteq> []" by auto
      from on_resp_error_Some [OF this, of s resp] obtain f w3 where
        e: "on_resp_error s resp w1 = Some (f, w3)" "replies w3 = replies w1"
          "length (elections w1) \<le> length (elections w3) + 1" by blast
      with l1 have l3: "length pre \<le> length (replies w3)"
        "2 * length pre \<le> length (elections w3)" by auto
      from Cons.IH [OF l3] obtain r where r: "Open_loop name deadline (pre @ t # post) w3 = Some r"
        by blast
      from l3 have "length pre \<le> length (replies (usleep 100000 w3))"
        "2 * length pre \<le> length (elections (usleep 100000 w3))" by auto
      from Cons.IH [OF this] obtain r' where
        r': "Open_loop name deadline (pre @ t # post) (usleep 100000 w3) = Some r'" by blast
      from False g True e r r' show ?thesis
        by (cases f) (auto simp: on_rpc_failure_ok)
    next
      case nok: False
      from l1 have "2 \<le> length (elections w1)" by auto
      from on_rpc_failure_Some [OF nok this] obtain f w2 where
        f: "on_rpc_failure s w1 = Some (f, w2)" "replies w2 = replies w1"
          "length (elections w1) \<le> length (elections w2) + 2"
          "\<forall>s1. f = Next s1 \<longrightarrow> \<not> ok s1" by blast
      with l1 have l2: "length pre \<le> length (replies w2)"
        "2 * length pre \<le> length (elections w2)" by auto
      from Cons.IH [OF l2] obtain r where r: "Open_loop name deadline (pre @ t # post) w2 = Some r"
        by blast
      from False g f r show ?thesis
        by (cases f) (auto simp: on_resp_error_not_ok)
    qed
  qed
qed

section \<open>Properties of the test scan\<close>

lemma row_key_BuildTestRow:
  "key_columns t = 1 \<Longrightarrow> 0 \<le> i \<Longrightarrow>
   row_key (key_columns t) (BuildTestRow i) = key_row (nat i)"
  by (simp add: row_key_def BuildTestRow_def key_row_def)

lemma key_row_inj:
  assumes "i < 2 ^ 32" and "j < 2 ^ 32" and "key_row i = key_row j"
  shows "i = j"
proof -
  from assms(3) have "(word_of_nat i :: 32 word) = word_of_nat j"
    by (simp add: key_row_def)
  then have "unat (word_of_nat i :: 32 word) = unat (word_of_nat j :: 32 word)"
    by simp
  with assms(1,2) show ?thesis
    by (simp add: unat_of_nat)
qed

lemma InsertTestRows_from_stored:
  assumes "0 \<le> i" and "num_rows < 2 ^ 31" and "key_columns t = 1"
    and "tablet_keys t \<subseteq> key_row ` {..< nat i}"
  shows "InsertTestRows_from i num_rows t =
         Some (t\<lparr>stored := stored t @ map (\<lambda>j. BuildTestRow (int j)) [nat i ..< nat num_rows]\<rparr>)"
  using assms
proof (induction i num_rows t rule: InsertTestRows_from.induct)
  case (1 i num_rows t)
  show ?case
  proof (cases "i < num_rows")
    case False
    then show ?thesis
      by (simp add: InsertTestRows_from.simps [of i])
  next
    case True
    have fresh: "row_key (key_columns t) (BuildTestRow i) \<notin> tablet_keys t"
    proof
      assume "row_key (key_columns t) (BuildTestRow i) \<in> tablet_keys t"
      with "1.prems" row_key_BuildTestRow [of t i]
      have "key_row (nat i) \<in> key_row ` {..< nat i}"
        by auto
      then obtain j where j: "j < nat i" "key_row (nat i) = key_row j"
        by auto
      from True "1.prems" have "nat i < 2 ^ 32" by simp
      with j key_row_inj [of "nat i" j] show False by simp
    qed
    let ?t' = "t\<lparr>stored := stored t @ [BuildTestRow i]\<rparr>"
    have ins: "tablet_Insert t (BuildTestRow i) = (OK, ?t')"
      using fresh by (simp add: tablet_Insert_def)
    have keys: "tablet_keys ?t' \<subseteq> key_row ` {..< nat (i + 1)}"
      using "1.prems" row_key_BuildTestRow [of t i]
      by (auto simp: tablet_keys_def nat_add_distrib less_Suc_eq)
    have "InsertTestRows_from (i + 1) num_rows ?t' =
          Some (?t'\<lparr>stored := stored ?t' @
                   map (\<lambda>j. BuildTestRow (int j)) [nat (i + 1) ..< nat num_rows]\<rparr>)"
      using "1.IH" [OF True ins [symmetric] ok_OK _ "1.prems"(2) _ keys] "1.prems"
      by simp
    moreover have "[nat i ..< nat num_rows] = nat i # [nat (i + 1) ..< nat num_rows]"
      using True "1.prems" by (simp add: upt_conv_Cons nat_add_distrib)
    ultimately show ?thesis
      using True ins "1.prems" by (simp add: InsertTestRows_from.simps [of i])
  qed
qed


lemma InsertTestRows_stored:
  assumes "num_rows < 2 ^ 31"
  shows "InsertTestRows num_rows empty_tablet =
         Some (empty_tablet\<lparr>stored := map (\<lambda>j. BuildTestRow (int j)) [0 ..< nat num_rows]\<rparr>)"
  using InsertTestRows_from_stored [of 0 num_rows empty_tablet] assms
  by (simp add: InsertTestRows_def empty_tablet_def test_schema_def tablet_keys_def)

lemma add_rows_append:
  "add_rows (xs @ ys) acc =
     (case add_rows xs acc of None \<Rightarrow> None | Some acc' \<Rightarrow> add_rows ys acc')"
  by (induction xs arbitrary: acc) (auto split: option.splits)

lemma scan_sum_add_rows: "scan_sum sc acc = add_rows (scan_remaining sc) acc"
proof (induction sc acc rule: scan_sum.induct)
  case (1 sc acc)
  show ?case
  proof (cases "HasMoreRows sc")
    case False
    then show ?thesis
      by (simp add: scan_sum.simps [of sc] HasMoreRows_def)
  next
    case True
    let ?k = "max 1 (batch_rows sc)"
    let ?sc' = "sc\<lparr>scan_remaining := drop ?k (scan_remaining sc)\<rparr>"
    have nb: "NextBatch sc = (take ?k (scan_remaining sc), ?sc')"
      by (simp add: NextBatch_def)
    have split: "add_rows (scan_remaining sc) acc =
          (case add_rows (take ?k (scan_remaining sc)) acc of
             None \<Rightarrow> None
           | Some acc' \<Rightarrow> add_rows (drop ?k (scan_remaining sc)) acc')"
      using add_rows_append [of "take ?k (scan_remaining sc)" "drop ?k (scan_remaining sc)" acc]
      by simp
    show ?thesis
    proof (cases "add_rows (take ?k (scan_remaining sc)) acc")
      case None
      with True nb split show ?thesis
        by (simp add: scan_sum.simps [of sc])
    next
      case (Some acc')
      from "1.IH" [OF True nb [symmetric] Some]
      have "scan_sum ?sc' acc' = add_rows (drop ?k (scan_remaining sc)) acc'"
        by simp
      with True nb split Some show ?thesis
        by (simp add: scan_sum.simps [of sc])
    qed
  qed
qed

lemma project_key_BuildTestRow:
  "project (CreateKeyProjection test_schema) (BuildTestRow i) = [Some (UInt32Cell (word_of_int i))]"
  by (simp add: project_def CreateKeyProjection_def test_schema_def BuildTestRow_def)

lemma triangle_step: "m * (m - 1) div 2 + m = Suc m * m div (2::nat)"
proof -
  have "Suc m * m = m * (m - 1) + m * 2"
    by (cases m) (auto simp: algebra_simps)
  then show ?thesis
    by simp
qed

lemma ucast_key:
  assumes "m < 2 ^ 32"
  shows "(ucast (word_of_int (int m) :: 32 word) :: 64 word) = word_of_nat m"
proof -
  have "(ucast (word_of_nat m :: 32 word) :: 64 word) = word_of_nat (take_bit 32 m)"
    by (simp add: unsigned_of_nat)
  moreover from assms have "take_bit 32 m = m"
    by (simp add: take_bit_nat_eq_self)
  ultimately show ?thesis
    by simp
qed

lemma add_rows_keys:
  assumes "m \<le> 2 ^ 32"
  shows "add_rows (map (\<lambda>j. [Some (UInt32Cell (word_of_int (int j)))]) [0 ..< m]) 0 =
         Some (word_of_nat (m * (m - 1) div 2))"
  using assms
proof (induction m)
  case 0
  then show ?case by simp
next
  case (Suc m)
  then have m: "m < 2 ^ 32" and IH: "add_rows (map (\<lambda>j. [Some (UInt32Cell (word_of_int (int j)))]) [0 ..< m]) 0 =
         Some (word_of_nat (m * (m - 1) div 2))"
    by simp_all
  have "add_rows (map (\<lambda>j. [Some (UInt32Cell (word_of_int (int j)))]) [0 ..< Suc m]) 0 =
        Some (word_of_nat (m * (m - 1) div 2) + ucast (word_of_int (int m) :: 32 word))"
    using IH by (simp add: add_rows_append ExtractUInt32_def del: of_int_of_nat_eq)
  also have "word_of_nat (m * (m - 1) div 2) + ucast (word_of_int (int m) :: 32 word) =
             (word_of_nat (m * (m - 1) div 2 + m) :: 64 word)"
    using ucast_key [OF m] by simp
  also have "m * (m - 1) div 2 + m = Suc m * (Suc m - 1) div 2"
    using triangle_step [of m] by simp
  finally show ?case .
qed

lemma triangle_bound:
  assumes "m < 2 ^ 31"
  shows "m * (m - 1) < (2 ^ 64 :: nat)"
proof -
  have "m * (m - 1) \<le> 2 ^ 31 * 2 ^ 31"
    using assms by (intro mult_le_mono) auto
  then show ?thesis by simp
qed


lemma prod_words:
  "(word_of_int (int m) * word_of_int (0 + (int m - 1)) :: 64 word) = word_of_nat (m * (m - 1))"
proof (cases m)
  case 0
  then show ?thesis by simp
next
  case (Suc k)
  show ?thesis
    unfolding Suc by (simp add: algebra_simps)
qed

lemma unat_small:
  assumes "k < 2 ^ 64"
  shows "unat (word_of_nat k :: 64 word) = k"
  using assms by (simp add: unat_of_nat)

lemma expected_sum_int:
  assumes "m < 2 ^ 31"
  shows "unat (expected_sum (int m)) = m * (m - 1) div 2"
    and "expected_sum (int m) = word_of_nat (m * (m - 1) div 2)"
proof -
  have b: "m * (m - 1) < 2 ^ 64"
    using assms by (rule triangle_bound)
  have "unat (expected_sum (int m)) = unat (word_of_nat (m * (m - 1)) :: 64 word) div 2"
    unfolding expected_sum_def prod_words by (simp add: unat_div)
  then show u: "unat (expected_sum (int m)) = m * (m - 1) div 2"
    using unat_small [OF b] by simp
  from b have "m * (m - 1) div 2 < 2 ^ 64" by simp
  from unat_small [OF this] u
  show "expected_sum (int m) = word_of_nat (m * (m - 1) div 2)"
    by (simp add: word_unat_eq_iff)
qed

lemma concat_scan_all: "concat (scan_all sc) = scan_remaining sc"
proof (induction sc rule: scan_all.induct)
  case (1 sc)
  show ?case
  proof (cases "HasMoreRows sc")
    case False
    then show ?thesis
      by (simp add: scan_all.simps [of sc] HasMoreRows_def)
  next
    case True
    let ?k = "max 1 (batch_rows sc)"
    let ?sc' = "sc\<lparr>scan_remaining := drop ?k (scan_remaining sc)\<rparr>"
    have nb: "NextBatch sc = (take ?k (scan_remaining sc), ?sc')"
      by (simp add: NextBatch_def)
    from "1.IH" [OF True nb [symmetric]]
    have "concat (scan_all ?sc') = drop ?k (scan_remaining sc)"
      by simp
    with True nb show ?thesis
      by (simp add: scan_all.simps [of sc])
  qed
qed

lemma key_column_sum_append:
  "key_column_sum (xs @ ys) =
     (case key_column_sum xs of
        None \<Rightarrow> None
      | Some a \<Rightarrow> map_option (\<lambda>n. a + n) (key_column_sum ys))"
proof (induction xs)
  case Nil
  show ?case
    by (cases "key_column_sum ys") simp_all
next
  case (Cons x xs)
  then show ?case
    by (cases "ExtractUInt32 x 0"; cases "key_column_sum xs"; cases "key_column_sum ys")
       simp_all
qed

lemma unat_key:
  assumes "m < 2 ^ 32"
  shows "unat (word_of_int (int m) :: 32 word) = m"
  using assms by (simp add: unat_of_nat)

lemma key_column_sum_keys:
  assumes "m \<le> 2 ^ 32"
  shows "key_column_sum (map (\<lambda>j. [Some (UInt32Cell (word_of_int (int j)))]) [0 ..< m]) =
         Some (m * (m - 1) div 2)"
  using assms
proof (induction m)
  case 0
  then show ?case by simp
next
  case (Suc m)
  then have m: "m < 2 ^ 32"
    and IH: "key_column_sum (map (\<lambda>j. [Some (UInt32Cell (word_of_int (int j)))]) [0 ..< m]) =
         Some (m * (m - 1) div 2)"
    by simp_all
  have "key_column_sum (map (\<lambda>j. [Some (UInt32Cell (word_of_int (int j)))]) [0 ..< Suc m]) =
        Some (m * (m - 1) div 2 + unat (word_of_int (int m) :: 32 word))"
    using IH by (simp add: key_column_sum_append ExtractUInt32_def del: of_int_of_nat_eq)
  also have "m * (m - 1) div 2 + unat (word_of_int (int m) :: 32 word) =
             Suc m * (Suc m - 1) div 2"
    using unat_key [OF m] triangle_step [of m] by simp
  finally show ?case .
qed

text \<open>
  What the test's tablet holds after \<^verbatim>\<open>InsertTestRows\<close>, what the scanner opened on it has
  to hand out, and what the test's loop computes from it.
\<close>

lemma test_scan_facts:
  assumes "m < 2 ^ 31"
  defines "t \<equiv> empty_tablet\<lparr>stored := map (\<lambda>j. BuildTestRow (int j)) [0 ..< m]\<rparr>"
  shows "InsertTestRows (int m) empty_tablet = Some t"
    and "scan_remaining (scanner_Open t (CreateKeyProjection test_schema) n) =
          map (\<lambda>j. [Some (UInt32Cell (word_of_int (int j)))]) [0 ..< m]"
    and "scan_sum (scanner_Open t (CreateKeyProjection test_schema) n) 0 =
          Some (expected_sum (int m))"
proof -
  show "InsertTestRows (int m) empty_tablet = Some t"
    using InsertTestRows_stored [of "int m"] assms(1) by (simp add: t_def)
  show r: "scan_remaining (scanner_Open t (CreateKeyProjection test_schema) n) =
          map (\<lambda>j. [Some (UInt32Cell (word_of_int (int j)))]) [0 ..< m]"
    by (simp add: scanner_Open_def t_def comp_def project_key_BuildTestRow del: of_int_of_nat_eq)
  have "m \<le> 2 ^ 32"
    using assms(1) by simp
  then have "scan_sum (scanner_Open t (CreateKeyProjection test_schema) n) 0 =
        Some (word_of_nat (m * (m - 1) div 2))"
    using add_rows_keys [of m] r by (simp only: scan_sum_add_rows)
  with expected_sum_int(2) [OF assms(1)]
  show "scan_sum (scanner_Open t (CreateKeyProjection test_schema) n) 0 =
          Some (expected_sum (int m))"
    by simp
qed

subsection \<open>The sum of the keys\<close>

text \<open>
  Claim C9. For every number of rows \<open>N \<ge> 0\<close> (an \<^verbatim>\<open>int\<close>, so below \<open>2\<^sup>3\<^sup>1\<close>):
  \<^verbatim>\<open>InsertTestRows(N)\<close> puts the keys \<open>0, \<dots>, N - 1\<close> into the empty tablet, and the rows
  that the scan with the key projection and no predicate then returns, whatever the size of
  its batches, have keys that add up to \<open>N (N - 1) / 2\<close>. The test itself measures this for
  \<open>N > 0\<close>: it passes, its 64-bit sum being its expected value, which is that number. For
  \<open>N = 0\<close> the scan returns no row and the test stops at line 113, where it asserts that
  the scanner has rows, before it sums anything.
\<close>

theorem scan_sum_arithmetic_series:
  assumes "0 \<le> num_rows" and "num_rows < 2 ^ 31"
  shows "\<exists>t. InsertTestRows num_rows empty_tablet = Some t \<and>
           key_column_sum (concat (scan_all (scanner_Open t (CreateKeyProjection test_schema) n))) =
             Some (nat num_rows * (nat num_rows - 1) div 2) \<and>
           int (nat num_rows * (nat num_rows - 1) div 2) = num_rows * (num_rows - 1) div 2 \<and>
           DoTestScanWithoutPredicates t num_rows n =
             Some (if num_rows = 0 then AssertionFailed 113 else Passed (expected_sum num_rows)) \<and>
           unat (expected_sum num_rows) = nat num_rows * (nat num_rows - 1) div 2"
proof -
  from assms obtain m where m: "num_rows = int m" "m < 2 ^ 31"
    by (metis nat_less_numeral_power_cancel_iff nonneg_int_cases nat_int)
  define t where "t = empty_tablet\<lparr>stored := map (\<lambda>j. BuildTestRow (int j)) [0 ..< m]\<rparr>"
  let ?sc = "scanner_Open t (CreateKeyProjection test_schema) n"
  note f = test_scan_facts [OF m(2), folded t_def]
  have "m \<le> 2 ^ 32"
    using m(2) by simp
  then have k: "key_column_sum (concat (scan_all ?sc)) = Some (m * (m - 1) div 2)"
    using key_column_sum_keys [of m] f(2) by (simp only: concat_scan_all)
  have i: "int (m * (m - 1) div 2) = int m * (int m - 1) div 2"
    by (cases m) (simp_all add: zdiv_int algebra_simps)
  have h: "HasMoreRows ?sc \<longleftrightarrow> m \<noteq> 0"
    by (simp add: HasMoreRows_def f(2))
  have d: "DoTestScanWithoutPredicates t (int m) n =
             Some (if m = 0 then AssertionFailed 113 else Passed (expected_sum (int m)))"
    using h f(3) by (simp add: DoTestScanWithoutPredicates_def Let_def)
  have u: "unat (expected_sum (int m)) = m * (m - 1) div 2"
    by (rule expected_sum_int(1) [OF m(2)])
  from f(1) k i d u show ?thesis
    unfolding m(1) by (intro exI [of _ t]) simp
qed

theorem scan_sum_arithmetic_series_witness:
  "(\<exists>t. InsertTestRows 4 empty_tablet = Some t \<and>
       key_column_sum (concat (scan_all (scanner_Open t (CreateKeyProjection test_schema) 3))) =
         Some 6 \<and>
       DoTestScanWithoutPredicates t 4 3 = Some (Passed 6)) \<and>
   (\<exists>t. InsertTestRows 0 empty_tablet = Some t \<and>
       key_column_sum (concat (scan_all (scanner_Open t (CreateKeyProjection test_schema) 3))) =
         Some 0 \<and>
       DoTestScanWithoutPredicates t 0 3 = Some (AssertionFailed 113))"
proof -
  have a: "(0::int) \<le> 4" "(4::int) < 2 ^ 31" "(0::int) \<le> 0" "(0::int) < 2 ^ 31"
    by simp_all
  have e: "expected_sum 4 = 6"
    by (simp add: expected_sum_def)
  from scan_sum_arithmetic_series [OF a(1,2), of 3] obtain t4 where
    "InsertTestRows 4 empty_tablet = Some t4"
    "key_column_sum (concat (scan_all (scanner_Open t4 (CreateKeyProjection test_schema) 3))) =
       Some (nat 4 * (nat 4 - 1) div 2)"
    "DoTestScanWithoutPredicates t4 4 3 =
       Some (if (4::int) = 0 then AssertionFailed 113 else Passed (expected_sum 4))"
    by blast
  with e have four: "\<exists>t. InsertTestRows 4 empty_tablet = Some t \<and>
       key_column_sum (concat (scan_all (scanner_Open t (CreateKeyProjection test_schema) 3))) =
         Some 6 \<and>
       DoTestScanWithoutPredicates t 4 3 = Some (Passed 6)"
    by (intro exI [of _ t4]) simp
  from scan_sum_arithmetic_series [OF a(3,4), of 3] obtain t0 where
    "InsertTestRows 0 empty_tablet = Some t0"
    "key_column_sum (concat (scan_all (scanner_Open t0 (CreateKeyProjection test_schema) 3))) =
       Some (nat 0 * (nat 0 - 1) div 2)"
    "DoTestScanWithoutPredicates t0 0 3 =
       Some (if (0::int) = 0 then AssertionFailed 113 else Passed (expected_sum 0))"
    by blast
  then have "\<exists>t. InsertTestRows 0 empty_tablet = Some t \<and>
       key_column_sum (concat (scan_all (scanner_Open t (CreateKeyProjection test_schema) 3))) =
         Some 0 \<and>
       DoTestScanWithoutPredicates t 0 3 = Some (AssertionFailed 113)"
    by (intro exI [of _ t0]) simp
  with four show ?thesis
    by blast
qed

section \<open>Properties of the write session\<close>

lemma Flush_unfold:
  "Flush c s =
     (case flush_round c (buffered_ops s) of
        (es, c') \<Rightarrow>
          (if es = [] then OK else Status kIOError ''Some errors occurred'',
           s\<lparr>buffered_ops := [], error_collector := fold AddError es (error_collector s)\<rparr>,
           c'))"
  by (simp add: Flush_def FlushAsync_def)



lemma not_ok_AlreadyPresent [simp]: "\<not> ok (Status kAlreadyPresent m)"
  by (simp add: ok_def)

lemma tablet_Insert_ok_iff:
  "ok (fst (tablet_Insert t r)) \<longleftrightarrow> row_key (key_columns t) r \<notin> tablet_keys t"
  by (simp add: tablet_Insert_def)

lemma tablet_Insert_key_columns [simp]:
  "key_columns (snd (tablet_Insert t r)) = key_columns t"
  by (simp add: tablet_Insert_def)

lemma tablet_Insert_keys:
  "tablet_keys (snd (tablet_Insert t r)) = insert (row_key (key_columns t) r) (tablet_keys t)"
  by (auto simp: tablet_Insert_def tablet_keys_def)


lemma Write_Cons:
  "fst (Write t (op # ops)) =
     fst (tablet_Insert t (op_row op)) # fst (Write (snd (tablet_Insert t (op_row op))) ops)"
  "snd (Write t (op # ops)) = snd (Write (snd (tablet_Insert t (op_row op))) ops)"
  by (simp_all split: prod.splits)

lemma Write_length: "length (fst (Write t ops)) = length ops"
  by (induction ops arbitrary: t) (simp_all add: Write_Cons del: Write.simps(2))

lemma Write_key_columns [simp]: "key_columns (snd (Write t ops)) = key_columns t"
proof (induction ops arbitrary: t)
  case Nil
  then show ?case by simp
next
  case (Cons op ops)
  show ?case
    using Cons.IH [of "snd (tablet_Insert t (op_row op))"] by (simp add: Write_Cons del: Write.simps(2))
qed

lemma Write_append:
  "fst (Write t (xs @ ys)) = fst (Write t xs) @ fst (Write (snd (Write t xs)) ys)"
  "snd (Write t (xs @ ys)) = snd (Write (snd (Write t xs)) ys)"
  by (induction xs arbitrary: t) (simp_all add: Write_Cons del: Write.simps(2))

lemma Write_keys:
  "tablet_keys (snd (Write t ops)) =
     tablet_keys t \<union> (\<lambda>op. row_key (key_columns t) (op_row op)) ` set ops"
proof (induction ops arbitrary: t)
  case Nil
  then show ?case by simp
next
  case (Cons op ops)
  let ?t1 = "snd (tablet_Insert t (op_row op))"
  have "snd (Write t (op # ops)) = snd (Write ?t1 ops)"
    by (rule Write_Cons)
  with Cons.IH [of ?t1] show ?case
    by (auto simp: tablet_Insert_keys)
qed


text \<open>The result of one row: it depends on the keys before it, not on what failed.\<close>

lemma Write_row_result:
  "fst (Write t (xs @ op # ys)) ! length xs =
     fst (tablet_Insert (snd (Write t xs)) (op_row op))"
  by (simp add: Write_append Write_Cons nth_append Write_length del: Write.simps(2))

lemma Write_row_ok_iff:
  "ok (fst (Write t (xs @ op # ys)) ! length xs) \<longleftrightarrow>
     row_key (key_columns t) (op_row op) \<notin>
       tablet_keys t \<union> (\<lambda>x. row_key (key_columns t) (op_row x)) ` set xs"
  by (simp add: Write_row_result tablet_Insert_ok_iff Write_keys)














lemma Flush_ok_iff:
  "ok (fst (Flush c s)) \<longleftrightarrow> fst (flush_round c (buffered_ops s)) = []"
  by (simp add: Flush_unfold ok_def OK_def split: prod.splits)


subsection \<open>A batch with a rejected row\<close>

lemmas session_defs =
  ApplyInsertToSession_def SetCell_def NewInsert_def test_schema_def client_table_def Apply_def
  key_specified_def key_of_def row_key_def Flush_unfold flush_round_def resolved_ops_def
  unresolved_ops_def dispatch_batch_def batch_for_def tablet_Insert_def tablet_keys_def
  failed_rows_def AddError_def mini_cluster_def empty_tablet_def NewSession_def ok_def OK_def

lemmas text_defs =
  Insert_ToString_def type_text_def cell_text_def decimal_nat.simps digit_char_def

lemma ApplyInsertToSession_test:
  "ApplyInsertToSession s client_table k v str =
     (OK, s\<lparr>buffered_ops := buffered_ops s @ [test_insert k v str]\<rparr>)"
  by (simp add: session_defs test_insert_def)

lemma first_flush:
  "Flush mini_cluster
     \<lparr>buffered_ops = [test_insert 1 1 ''original row''],
      error_collector = \<lparr>capacity = 10, pending_errors = [], overflowed = False\<rparr>\<rparr> =
     (OK, NewSession 10,
      mini_cluster\<lparr>servers := (servers mini_cluster)(''fake-table'' \<mapsto>
         empty_tablet\<lparr>stored := [op_row (test_insert 1 1 ''original row'')]\<rparr>)\<rparr>)"
  by (simp add: session_defs test_insert_def)

lemma partial_error_session_eq:
  "partial_error_session =
     (NewSession 10)\<lparr>buffered_ops :=
        [test_insert 1 1 ''Attempted dup'', test_insert 2 1 ''Should succeed'']\<rparr>"
  by (simp add: partial_error_session_def ApplyInsertToSession_test NewSession_def first_flush)

lemma partial_error_cluster_eq:
  "partial_error_cluster =
     mini_cluster\<lparr>servers := (servers mini_cluster)(''fake-table'' \<mapsto>
         empty_tablet\<lparr>stored := [op_row (test_insert 1 1 ''original row'')]\<rparr>)\<rparr>"
  by (simp add: partial_error_cluster_def ApplyInsertToSession_test NewSession_def first_flush)

lemma second_flush:
  "fst (Flush partial_error_cluster partial_error_session) = Status kIOError ''Some errors occurred''"
  "GetPendingErrors (fst (snd (Flush partial_error_cluster partial_error_session))) =
     (([\<lparr>failed_op = ''INSERT uint32 key=1, uint32 int_val=1, string string_val=Attempted dup'',
         record_status = Status kAlreadyPresent ''key already present''\<rparr>], False), NewSession 10)"
  "servers (snd (snd (Flush partial_error_cluster partial_error_session))) ''fake-table'' =
     Some (empty_tablet\<lparr>stored := [op_row (test_insert 1 1 ''original row''),
                                      op_row (test_insert 2 1 ''Should succeed'')]\<rparr>)"
  by (simp_all add: partial_error_cluster_eq partial_error_session_eq session_defs test_insert_def
        text_defs GetPendingErrors_def)




subsection \<open>The records of a round, row by row\<close>



lemma failed_rows_Nil [simp]: "failed_rows [] ss = []"
  by (simp add: failed_rows_def)

lemma dispatch_batch_Nil [simp]: "fst (dispatch_batch tid [] c) = []"
  by (simp add: dispatch_batch_def split: option.splits)










lemma batch_records_other:
  assumes "resolution c op \<noteq> Inr tid"
  shows "filter (\<lambda>x. resolution c x = Inr tid) (ops @ [op]) =
         filter (\<lambda>x. resolution c x = Inr tid) ops"
  using assms by simp











subsection \<open>A rejected row and the rest of the round\<close>



end
